theory Spec2Isabelle
  imports Main "HOL-Library.Multiset" "HOL-Library.Sublist" "HOL-Library.Char_ord"
    "HOL-Library.List_Lexorder" "HOL-Library.Product_Lexorder"
begin

section \<open>Data model of \<open>finalproject/task_manager.py\<close>\<close>

text \<open>
  A task is a Python dictionary with the eight keys listed in the module docstring.
  It is modelled as a record of the same fields. Integers are Python's unbounded
  integers, strings are lists of characters (bytes of the UTF-8 text, whose
  lexicographic order is the order of Python's code points), and the JSON value
  \<open>null\<close> of \<open>due_date\<close> is \<open>None\<close>. The status is kept as the string the code
  compares it with.
\<close>

record task =
  task_id :: int
  title :: string
  description :: string
  created_at :: string
  due_date :: "string option"
  priority :: int
  status :: string
  summary :: string

text \<open>
  The value that \<open>json.load\<close> returns for the text of the file. Only an array of
  tasks is a collection; every other top-level value is rejected by \<open>_load\<close>.
\<close>

datatype json =
    JArray "task list"
  | JObject "(string \<times> string) list"
  | JString string
  | JNumber int
  | JBool bool
  | JNull

text \<open>
  What lies at \<open>store_path\<close>: nothing, a text on which \<open>json.load\<close> raises (the empty
  text is one of these), or a text that decodes to a JSON value.
\<close>

datatype file_state = Missing | Undecodable string | Decoded json

datatype error = IOError | ValueError

text \<open>
  What the file system does during one call of \<open>_save\<close>: the write goes through,
  or \<open>open(..., "w")\<close> raises and the file is untouched, or \<open>open\<close> has truncated the
  file and the write raises after the given text has reached it. That text is a
  proper prefix of the output of \<open>json.dump\<close>, which never decodes, since the closing
  bracket of the array is missing.
\<close>

datatype io_fault = NoFault | OpenFails | WriteFails string

text \<open>
  The store is the file together with a count of the calls of \<open>_save\<close> made so far.
  The count is not data of the program; it records whether an operation has saved.
\<close>

record store =
  content :: file_state
  saves :: nat

type_synonym date = "int \<times> int \<times> int"

text \<open>
  The surroundings of a call: the reading of \<open>_now_iso()\<close>, the current UTC date, and
  the summarising service (\<open>None\<close> when the client library or the API key is absent;
  otherwise the text that the \<open>try\<close> block of \<open>_generate_summary\<close> returns).
\<close>

record env =
  now_iso :: string
  today :: date
  openai :: "(string \<Rightarrow> string \<Rightarrow> string) option"

section \<open>Storage\<close>

definition path_exists :: "file_state \<Rightarrow> bool" where
  "path_exists f = (f \<noteq> Missing)"

fun json_load :: "file_state \<Rightarrow> error + json" where
  "json_load Missing = Inl IOError"
| "json_load (Undecodable s) = Inl ValueError"
| "json_load (Decoded j) = Inr j"

text \<open>
  \<open>_load\<close>: every exception of the \<open>try\<close> block is caught and answered with the empty
  list, as is a decoded value that is not a list.
\<close>

definition load :: "store \<Rightarrow> task list" where
  "load st =
     (if \<not> path_exists (content st) then []
      else case json_load (content st) of
             Inl e \<Rightarrow> []
           | Inr (JArray ts) \<Rightarrow> ts
           | Inr other \<Rightarrow> [])"

text \<open>
  \<open>_save\<close>: opens the file for writing, which truncates it, and dumps the list.
  The result is the outcome for the caller and the store left behind.
\<close>

definition save :: "io_fault \<Rightarrow> store \<Rightarrow> task list \<Rightarrow> (error + unit) \<times> store" where
  "save fault st tasks =
     (case fault of
        NoFault \<Rightarrow> (Inr (), \<lparr>content = Decoded (JArray tasks), saves = Suc (saves st)\<rparr>)
      | OpenFails \<Rightarrow> (Inl IOError, \<lparr>content = content st, saves = Suc (saves st)\<rparr>)
      | WriteFails s \<Rightarrow> (Inl IOError, \<lparr>content = Undecodable s, saves = Suc (saves st)\<rparr>))"

text \<open>Python's \<open>max(xs, default=d)\<close>.\<close>

fun max_default :: "int list \<Rightarrow> int \<Rightarrow> int" where
  "max_default [] d = d"
| "max_default (x # xs) d = fold max xs x"

definition next_id :: "task list \<Rightarrow> int" where
  "next_id tasks = max_default (map task_id tasks) 0 + 1"

section \<open>Dates: \<open>datetime.strptime(s, "%Y-%m-%d")\<close>\<close>

text \<open>
  The library compiles the format to the regular expression
  \<open>(\d\d\d\d)-(1[0-2]|0[1-9]|[1-9])-(3[0-1]|[1-2]\d|0[1-9]|[1-9]| [1-9])\<close>, matches
  it at the start of the text, rejects text left over, and builds the date, which
  fails for the year 0 and for a day the month does not have. Digits are the ASCII
  digits here.
\<close>

definition is_digit :: "char \<Rightarrow> bool" where
  "is_digit c = (CHR ''0'' \<le> c \<and> c \<le> CHR ''9'')"

definition digit_val :: "char \<Rightarrow> int" where
  "digit_val c = of_char c - 48"

definition in_range :: "char \<Rightarrow> char \<Rightarrow> char \<Rightarrow> bool" where
  "in_range lo hi c = (lo \<le> c \<and> c \<le> hi)"

fun parse_year :: "string \<Rightarrow> (int \<times> string) option" where
  "parse_year (a # b # c # d # rest) =
     (if is_digit a \<and> is_digit b \<and> is_digit c \<and> is_digit d
      then Some (1000 * digit_val a + 100 * digit_val b + 10 * digit_val c + digit_val d, rest)
      else None)"
| "parse_year s = None"

fun expect_dash :: "string \<Rightarrow> string option" where
  "expect_dash (c # rest) = (if c = CHR ''-'' then Some rest else None)"
| "expect_dash [] = None"

text \<open>
  The month is followed by a dash, so of the three alternatives at most one lets
  the rest of the expression match; they are tried in the order of the expression.
\<close>

fun parse_month :: "string \<Rightarrow> (int \<times> string) option" where
  "parse_month (a # b # rest) =
     (if a = CHR ''1'' \<and> in_range (CHR ''0'') (CHR ''2'') b then Some (10 + digit_val b, rest)
      else if a = CHR ''0'' \<and> in_range (CHR ''1'') (CHR ''9'') b then Some (digit_val b, rest)
      else if in_range (CHR ''1'') (CHR ''9'') a then Some (digit_val a, b # rest)
      else None)"
| "parse_month [a] = (if in_range (CHR ''1'') (CHR ''9'') a then Some (digit_val a, []) else None)"
| "parse_month [] = None"

fun parse_day :: "string \<Rightarrow> (int \<times> string) option" where
  "parse_day (a # b # rest) =
     (if a = CHR ''3'' \<and> in_range (CHR ''0'') (CHR ''1'') b then Some (30 + digit_val b, rest)
      else if in_range (CHR ''1'') (CHR ''2'') a \<and> is_digit b then Some (10 * digit_val a + digit_val b, rest)
      else if a = CHR ''0'' \<and> in_range (CHR ''1'') (CHR ''9'') b then Some (digit_val b, rest)
      else if in_range (CHR ''1'') (CHR ''9'') a then Some (digit_val a, b # rest)
      else if a = CHR '' '' \<and> in_range (CHR ''1'') (CHR ''9'') b then Some (digit_val b, rest)
      else None)"
| "parse_day [a] = (if in_range (CHR ''1'') (CHR ''9'') a then Some (digit_val a, []) else None)"
| "parse_day [] = None"

definition is_leap :: "int \<Rightarrow> bool" where
  "is_leap y = (y mod 4 = 0 \<and> (y mod 100 \<noteq> 0 \<or> y mod 400 = 0))"

definition days_in_month :: "int \<Rightarrow> int \<Rightarrow> int" where
  "days_in_month y m =
     (if m = 2 then (if is_leap y then 29 else 28)
      else if m = 4 \<or> m = 6 \<or> m = 9 \<or> m = 11 then 30 else 31)"

definition strptime :: "string \<Rightarrow> error + date" where
  "strptime s =
     (case parse_year s of None \<Rightarrow> Inl ValueError | Some (y, r1) \<Rightarrow>
     (case expect_dash r1 of None \<Rightarrow> Inl ValueError | Some r2 \<Rightarrow>
     (case parse_month r2 of None \<Rightarrow> Inl ValueError | Some (m, r3) \<Rightarrow>
     (case expect_dash r3 of None \<Rightarrow> Inl ValueError | Some r4 \<Rightarrow>
     (case parse_day r4 of None \<Rightarrow> Inl ValueError | Some (d, r5) \<Rightarrow>
        if r5 \<noteq> [] then Inl ValueError
        else if y < 1 \<or> d > days_in_month y m then Inl ValueError
        else Inr (y, m, d))))))"

section \<open>Adding a task\<close>

definition generate_summary :: "env \<Rightarrow> string \<Rightarrow> string \<Rightarrow> string" where
  "generate_summary e ttl desc =
     (case openai e of
        None \<Rightarrow> ''(Summary unavailable: OpenAI API key not set)''
      | Some f \<Rightarrow> f ttl desc)"

text \<open>Python's truth value of an optional string: \<open>None\<close> and the empty string are false.\<close>

fun truthy :: "string option \<Rightarrow> bool" where
  "truthy None = False"
| "truthy (Some s) = (s \<noteq> [])"

text \<open>
  The check of the due date in \<open>add_task\<close>: \<open>if due_date:\<close> lets \<open>None\<close> and the
  empty string pass unchanged; any other text is kept if it parses and replaced by
  \<open>None\<close> if \<open>strptime\<close> raises.
\<close>

definition checked_due :: "string option \<Rightarrow> string option" where
  "checked_due due =
     (case due of
        None \<Rightarrow> None
      | Some d \<Rightarrow>
          if truthy (Some d)
          then (case strptime d of Inl e \<Rightarrow> None | Inr v \<Rightarrow> Some d)
          else Some d)"

definition new_task ::
  "env \<Rightarrow> task list \<Rightarrow> string \<Rightarrow> string \<Rightarrow> string option \<Rightarrow> int \<Rightarrow> bool \<Rightarrow> task" where
  "new_task e tasks ttl desc due prio summarize =
     \<lparr>task_id = next_id tasks,
      title = ttl,
      description = desc,
      created_at = now_iso e,
      due_date = checked_due due,
      priority = (if prio < 1 \<or> prio > 5 then 3 else prio),
      status = ''pending'',
      summary = (if summarize then generate_summary e ttl desc else [])\<rparr>"

text \<open>
  The end of every mutating operation: \<open>_save(store_path, tasks)\<close> followed by
  \<open>return r\<close>. An exception of \<open>_save\<close> leaves the operation in place of the value.
\<close>

definition save_then :: "io_fault \<Rightarrow> store \<Rightarrow> task list \<Rightarrow> 'a \<Rightarrow> (error + 'a) \<times> store" where
  "save_then fault st tasks r =
     (case save fault st tasks of
        (Inl err, st') \<Rightarrow> (Inl err, st')
      | (Inr u, st') \<Rightarrow> (Inr r, st'))"

definition add_task ::
  "env \<Rightarrow> io_fault \<Rightarrow> store \<Rightarrow> string \<Rightarrow> string \<Rightarrow> string option \<Rightarrow> int \<Rightarrow> bool
     \<Rightarrow> (error + task) \<times> store" where
  "add_task e fault st ttl desc due prio summarize =
     (let tasks = load st;
          t = new_task e tasks ttl desc due prio summarize
      in save_then fault st (tasks @ [t]) t)"

section \<open>Listing\<close>

text \<open>\<open>t.get("due_date") or "9999-12-31"\<close>\<close>

definition due_or_sentinel :: "task \<Rightarrow> string" where
  "due_or_sentinel t =
     (case due_date t of
        None \<Rightarrow> ''9999-12-31''
      | Some d \<Rightarrow> if truthy (Some d) then d else ''9999-12-31'')"

definition key_due :: "task \<Rightarrow> string \<times> int" where
  "key_due t = (due_or_sentinel t, priority t)"

definition key_priority :: "task \<Rightarrow> int \<times> string" where
  "key_priority t = (priority t, due_or_sentinel t)"

text \<open>
  Python's \<open>sorted\<close> is a stable ascending sort by the key, and so is \<open>sort_key\<close>;
  tuples and strings compare lexicographically in both.
\<close>

definition list_tasks :: "store \<Rightarrow> string \<Rightarrow> string \<Rightarrow> task list" where
  "list_tasks st filter_mode sort_mode =
     (let tasks = load st;
          tasks = (if filter_mode = ''pending'' then filter (\<lambda>t. status t = ''pending'') tasks
                   else if filter_mode = ''completed'' then filter (\<lambda>t. status t = ''complete'') tasks
                   else tasks)
      in if sort_mode = ''due'' then sort_key key_due tasks else sort_key key_priority tasks)"

section \<open>Mutations of one task\<close>

text \<open>
  The loop \<open>for t in tasks: if t["id"] == task_id: ...; return True\<close> changes the
  first task with the id, in place, and stops; \<open>None\<close> is the loop running to its end.
\<close>

fun update_first :: "int \<Rightarrow> (task \<Rightarrow> task) \<Rightarrow> task list \<Rightarrow> task list option" where
  "update_first i f [] = None"
| "update_first i f (t # ts) =
     (if task_id t = i then Some (f t # ts)
      else map_option ((#) t) (update_first i f ts))"

definition complete_task :: "io_fault \<Rightarrow> store \<Rightarrow> int \<Rightarrow> (error + bool) \<times> store" where
  "complete_task fault st i =
     (case update_first i (\<lambda>t. t\<lparr>status := ''complete''\<rparr>) (load st) of
        Some tasks \<Rightarrow> save_then fault st tasks True
      | None \<Rightarrow> (Inr False, st))"

definition delete_task :: "io_fault \<Rightarrow> store \<Rightarrow> int \<Rightarrow> (error + bool) \<times> store" where
  "delete_task fault st i =
     (let tasks = load st;
          new_tasks = filter (\<lambda>t. task_id t \<noteq> i) tasks
      in if length new_tasks \<noteq> length tasks then save_then fault st new_tasks True
         else (Inr False, st))"

definition set_priority :: "io_fault \<Rightarrow> store \<Rightarrow> int \<Rightarrow> int \<Rightarrow> (error + bool) \<times> store" where
  "set_priority fault st i p =
     (if p < 1 \<or> p > 5 then (Inr False, st)
      else case update_first i (\<lambda>t. t\<lparr>priority := p\<rparr>) (load st) of
             Some tasks \<Rightarrow> save_then fault st tasks True
           | None \<Rightarrow> (Inr False, st))"

definition edit_fields :: "string option \<Rightarrow> string option \<Rightarrow> string option \<Rightarrow> task \<Rightarrow> task" where
  "edit_fields ttl desc due t =
     (let t1 = (case ttl of None \<Rightarrow> t | Some x \<Rightarrow> t\<lparr>title := x\<rparr>);
          t2 = (case desc of None \<Rightarrow> t1 | Some x \<Rightarrow> t1\<lparr>description := x\<rparr>)
      in case due of
           None \<Rightarrow> t2
         | Some d \<Rightarrow>
             if d \<noteq> [] then (case strptime d of Inr v \<Rightarrow> t2\<lparr>due_date := Some d\<rparr> | Inl err \<Rightarrow> t2)
             else t2\<lparr>due_date := None\<rparr>)"

definition edit_task ::
  "io_fault \<Rightarrow> store \<Rightarrow> int \<Rightarrow> string option \<Rightarrow> string option \<Rightarrow> string option
     \<Rightarrow> (error + bool) \<times> store" where
  "edit_task fault st i ttl desc due =
     (case update_first i (edit_fields ttl desc due) (load st) of
        Some tasks \<Rightarrow> save_then fault st tasks True
      | None \<Rightarrow> (Inr False, st))"

definition clear_tasks :: "io_fault \<Rightarrow> store \<Rightarrow> (error + int) \<times> store" where
  "clear_tasks fault st =
     (let count = int (length (load st))
      in if count > 0 then save_then fault st [] count else (Inr count, st))"

section \<open>Searching\<close>

text \<open>\<open>str.lower()\<close> on the ASCII letters; other characters are left as they are.\<close>

definition lower_char :: "char \<Rightarrow> char" where
  "lower_char c = (if CHR ''A'' \<le> c \<and> c \<le> CHR ''Z'' then char_of (of_char c + (32::nat)) else c)"

definition lower :: "string \<Rightarrow> string" where
  "lower s = map lower_char s"

text \<open>
  \<open>startswith\<close> is \<open>prefix\<close> and \<open>q in s\<close> is \<open>sublist q s\<close> (a contiguous piece). The loop
  appends to one of two lists, which are its state.
\<close>

fun search_loop :: "string \<Rightarrow> task list \<Rightarrow> task list \<Rightarrow> task list \<Rightarrow> task list \<times> task list" where
  "search_loop q [] prefix_matches other_matches = (prefix_matches, other_matches)"
| "search_loop q (t # ts) prefix_matches other_matches =
     (let title_lower = lower (title t);
          desc_lower = lower (description t);
          summary_lower = lower (summary t)
      in if prefix q title_lower then search_loop q ts (prefix_matches @ [t]) other_matches
         else if sublist q title_lower \<or> sublist q desc_lower \<or> sublist q summary_lower
              then search_loop q ts prefix_matches (other_matches @ [t])
         else search_loop q ts prefix_matches other_matches)"

definition search_tasks :: "store \<Rightarrow> string \<Rightarrow> task list" where
  "search_tasks st query =
     (let tasks = load st;
          q = lower query
      in case search_loop q tasks [] [] of
           (prefix_matches, other_matches) \<Rightarrow> prefix_matches @ other_matches)"

section \<open>Overview\<close>

record overview =
  total :: int
  incomplete :: int
  high_priority :: int
  overdue :: int

fun count_overdue :: "date \<Rightarrow> task list \<Rightarrow> int \<Rightarrow> int" where
  "count_overdue tod [] n = n"
| "count_overdue tod (t # ts) n =
     (case due_date t of
        None \<Rightarrow> count_overdue tod ts n
      | Some d \<Rightarrow>
          if truthy (Some d)
          then (case strptime d of
                  Inr due \<Rightarrow> (if due < tod then count_overdue tod ts (n + 1) else count_overdue tod ts n)
                | Inl err \<Rightarrow> count_overdue tod ts n)
          else count_overdue tod ts n)"

definition get_overview :: "env \<Rightarrow> store \<Rightarrow> overview" where
  "get_overview e st =
     (let tasks = load st;
          pending_tasks = filter (\<lambda>t. status t = ''pending'') tasks
      in \<lparr>total = int (length tasks),
          incomplete = int (length (filter (\<lambda>t. status t = ''pending'') tasks)),
          high_priority = int (length (filter (\<lambda>t. priority t \<le> 2) pending_tasks)),
          overdue = count_overdue (today e) pending_tasks 0\<rparr>)"

section \<open>The properties, in the words of the specification\<close>

text \<open>
  Tier 1 of the search: the lower-cased title starts with the lower-cased query.
  Tier 2: the record is not in Tier 1, and its lower-cased title, description or
  summary contains the lower-cased query.
\<close>

definition tier1 :: "string \<Rightarrow> task \<Rightarrow> bool" where
  "tier1 query t = prefix (lower query) (lower (title t))"

definition tier2 :: "string \<Rightarrow> task \<Rightarrow> bool" where
  "tier2 query t =
     (\<not> tier1 query t \<and>
      (sublist (lower query) (lower (title t)) \<or>
       sublist (lower query) (lower (description t)) \<or>
       sublist (lower query) (lower (summary t))))"

text \<open>
  Overdue: the status is pending, the due date is present and parses, and it lies
  strictly before the current date.
\<close>

definition is_overdue :: "date \<Rightarrow> task \<Rightarrow> bool" where
  "is_overdue tod t =
     (status t = ''pending'' \<and>
      (case due_date t of
         None \<Rightarrow> False
       | Some d \<Rightarrow> (case strptime d of Inl err \<Rightarrow> False | Inr due \<Rightarrow> due < tod)))"

text \<open>The position of the first task with the id (the length of the list if there is none).\<close>

definition first_index :: "int \<Rightarrow> task list \<Rightarrow> nat" where
  "first_index i ts = length (takeWhile (\<lambda>t. task_id t \<noteq> i) ts)"

section \<open>Example stores\<close>

definition env0 :: env where
  "env0 = \<lparr>now_iso = ''2025-11-22T00:00:00+00:00'', today = (2025, 11, 22), openai = None\<rparr>"

definition store0 :: store where
  "store0 = \<lparr>content = Missing, saves = 0\<rparr>"

text \<open>Two tasks are added to the missing file, and the second is deleted again.\<close>

definition store1 :: store where
  "store1 = snd (add_task env0 NoFault store0 ''A'' [] None 3 False)"

definition store2 :: store where
  "store2 = snd (add_task env0 NoFault store1 ''B'' [] None 3 False)"

definition store3 :: store where
  "store3 = snd (delete_task NoFault store2 2)"

text \<open>A task without a due date and of priority 1, then one due on 9999-12-31 of priority 5.\<close>

definition store_far :: store where
  "store_far =
     snd (add_task env0 NoFault
            (snd (add_task env0 NoFault store0 ''Someday'' [] None 1 False))
            ''Far'' [] (Some ''9999-12-31'') 5 False)"

text \<open>One task with a due date.\<close>

definition store_dated :: store where
  "store_dated = snd (add_task env0 NoFault store0 ''Task'' [] (Some ''2025-12-01'') 3 False)"

text \<open>A task without a due date and of priority 3, then one due on 2025-12-01 of priority 5.\<close>

definition store_mixed :: store where
  "store_mixed = snd (add_task env0 NoFault store1 ''D'' [] (Some ''2025-12-01'') 5 False)"

text \<open>The four tasks of the search test.\<close>

definition store_search :: store where
  "store_search =
     snd (add_task env0 NoFault
       (snd (add_task env0 NoFault
         (snd (add_task env0 NoFault
           (snd (add_task env0 NoFault store0 ''Brush teeth'' [] None 3 False))
           ''Do laundry'' ''Buy bleach'' None 3 False))
         ''Buy groceries'' [] None 3 False))
       ''Remember birthday'' [] None 3 False)"

text \<open>An overdue pending task, a pending task of priority 1, and a completed task.\<close>

definition store_overview :: store where
  "store_overview =
     snd (complete_task NoFault
       (snd (add_task env0 NoFault
         (snd (add_task env0 NoFault
           (snd (add_task env0 NoFault store0 ''Late'' [] (Some ''2025-01-01'') 3 False))
           ''Urgent'' [] None 1 False))
         ''Done'' [] None 3 False))
       3)"

section \<open>Lemmas on the store\<close>

lemma load_simps:
  "load \<lparr>content = Missing, saves = n\<rparr> = []"
  "load \<lparr>content = Undecodable s, saves = n\<rparr> = []"
  "load \<lparr>content = Decoded (JArray ts), saves = n\<rparr> = ts"
  by (simp_all add: load_def path_exists_def)

lemma save_then_NoFault:
  "save_then NoFault st ts r = (Inr r, \<lparr>content = Decoded (JArray ts), saves = Suc (saves st)\<rparr>)"
  by (simp add: save_then_def save_def)

lemma save_then_not_False: "fst (save_then fault st ts True) \<noteq> Inr False"
  by (cases fault) (simp_all add: save_then_def save_def)

lemma update_first_None: "(update_first i f ts = None) = (i \<notin> task_id ` set ts)"
  by (induction ts) auto

lemma update_first_Some:
  "i \<in> task_id ` set ts \<Longrightarrow>
     update_first i f ts = Some (ts[first_index i ts := f (ts ! first_index i ts)])"
  by (induction ts) (auto simp: first_index_def)

lemma first_index_less: "i \<in> task_id ` set ts \<Longrightarrow> first_index i ts < length ts"
  unfolding first_index_def
  by (induction ts) auto

lemma first_index_id: "i \<in> task_id ` set ts \<Longrightarrow> task_id (ts ! first_index i ts) = i"
  unfolding first_index_def
  by (induction ts) auto

lemma first_index_update:
  "i \<in> task_id ` set ts \<Longrightarrow> task_id t' = i \<Longrightarrow>
     first_index i (ts[first_index i ts := t']) = first_index i ts"
  unfolding first_index_def
  by (induction ts) auto

lemma update_first_again:
  assumes "i \<in> task_id ` set ts" and "\<And>t. task_id (f t) = task_id t" and "\<And>t. f (f t) = f t"
  shows "update_first i f (ts[first_index i ts := f (ts ! first_index i ts)])
           = Some (ts[first_index i ts := f (ts ! first_index i ts)])"
  using assms(1)
  by (induction ts) (auto simp: first_index_def assms(2,3))

lemma first_match_False:
  "(fst (case update_first i f ts of
           Some tasks \<Rightarrow> save_then fault st tasks True
         | None \<Rightarrow> (Inr False, st)) = Inr False) = (i \<notin> task_id ` set ts)"
proof (cases "i \<in> task_id ` set ts")
  case True
  then show ?thesis
    by (simp add: update_first_Some save_then_not_False)
next
  case False
  then have "update_first i f ts = None"
    by (simp add: update_first_None)
  with False show ?thesis by simp
qed

lemma first_match_unchanged:
  "fst (case update_first i f ts of
          Some tasks \<Rightarrow> save_then fault st tasks True
        | None \<Rightarrow> (Inr False, st)) = Inr False \<Longrightarrow>
   snd (case update_first i f ts of
          Some tasks \<Rightarrow> save_then fault st tasks True
        | None \<Rightarrow> (Inr False, st)) = st"
  by (cases "update_first i f ts") (simp_all add: save_then_not_False)

section \<open>Lemmas on ids and dates\<close>

lemma max_default_ge: "x \<in> set xs \<Longrightarrow> x \<le> max_default xs d"
proof (cases xs)
  case Nil
  then show "x \<in> set xs \<Longrightarrow> x \<le> max_default xs d" by simp
next
  case (Cons y ys)
  assume "x \<in> set xs"
  moreover have "max_default xs d = Max (set xs)"
    using Cons Max.set_eq_fold [of y ys] by simp
  ultimately show "x \<le> max_default xs d" by simp
qed

lemma next_id_above: "u \<in> set tasks \<Longrightarrow> task_id u < next_id tasks"
  using max_default_ge [of "task_id u" "map task_id tasks" 0] by (simp add: next_id_def)

lemma strptime_empty: "strptime [] = Inl ValueError"
  by (simp add: strptime_def)

lemma strptime_far: "strptime ''9999-12-31'' = Inr (9999, 12, 31)"
  by (simp add: strptime_def is_digit_def digit_val_def in_range_def days_in_month_def)

lemma strptime_dec1: "strptime ''2025-12-01'' = Inr (2025, 12, 1)"
  by (simp add: strptime_def is_digit_def digit_val_def in_range_def days_in_month_def)

section \<open>The example stores, evaluated\<close>

lemmas run_defs =
  add_task_def delete_task_def complete_task_def Let_def save_then_NoFault load_simps
  new_task_def next_id_def checked_due_def

lemma load_store1:
  "load store1 =
     [\<lparr>task_id = 1, title = ''A'', description = [], created_at = now_iso env0,
       due_date = None, priority = 3, status = ''pending'', summary = []\<rparr>]"
  by (simp add: store1_def store0_def run_defs)

lemma load_store2:
  "load store2 =
     [\<lparr>task_id = 1, title = ''A'', description = [], created_at = now_iso env0,
       due_date = None, priority = 3, status = ''pending'', summary = []\<rparr>,
      \<lparr>task_id = 2, title = ''B'', description = [], created_at = now_iso env0,
       due_date = None, priority = 3, status = ''pending'', summary = []\<rparr>]"
  by (simp add: store2_def load_store1 run_defs)

lemma load_store3: "load store3 = load store1"
  by (simp add: store3_def load_store1 load_store2 run_defs)

lemma load_store_far:
  "load store_far =
     [\<lparr>task_id = 1, title = ''Someday'', description = [], created_at = now_iso env0,
       due_date = None, priority = 1, status = ''pending'', summary = []\<rparr>,
      \<lparr>task_id = 2, title = ''Far'', description = [], created_at = now_iso env0,
       due_date = Some ''9999-12-31'', priority = 5, status = ''pending'', summary = []\<rparr>]"
  by (simp add: store_far_def store0_def run_defs strptime_far)

lemma load_store_dated:
  "load store_dated =
     [\<lparr>task_id = 1, title = ''Task'', description = [], created_at = now_iso env0,
       due_date = Some ''2025-12-01'', priority = 3, status = ''pending'', summary = []\<rparr>]"
  by (simp add: store_dated_def store0_def run_defs strptime_dec1)

lemma load_store_mixed:
  "load store_mixed =
     [\<lparr>task_id = 1, title = ''A'', description = [], created_at = now_iso env0,
       due_date = None, priority = 3, status = ''pending'', summary = []\<rparr>,
      \<lparr>task_id = 2, title = ''D'', description = [], created_at = now_iso env0,
       due_date = Some ''2025-12-01'', priority = 5, status = ''pending'', summary = []\<rparr>]"
  by (simp add: store_mixed_def load_store1 run_defs strptime_dec1)

text \<open>The search of the test suite and the overview of three tasks.\<close>

lemma search_example:
  "map task_id (search_tasks store_search ''b'') = [1, 3, 2, 4]"
  by code_simp

lemma search_example_upper:
  "map title (search_tasks store_search ''B'')
        = [''Brush teeth'', ''Buy groceries'', ''Do laundry'', ''Remember birthday'']"
  by code_simp

lemma overview_example:
  "get_overview env0 store_overview
     = \<lparr>total = 3, incomplete = 2, high_priority = 1, overdue = 1\<rparr>"
  by code_simp

section \<open>Lemmas on searching, listing and counting\<close>

lemma search_loop_filter:
  "search_loop (lower query) ts pm om =
     (pm @ filter (tier1 query) ts, om @ filter (tier2 query) ts)"
  by (induction ts arbitrary: pm om) (simp_all add: Let_def tier1_def tier2_def)

lemma disjoint_filters_mset:
  "(\<And>x. P x \<Longrightarrow> \<not> Q x) \<Longrightarrow>
     mset (filter P xs @ filter Q xs) = filter_mset (\<lambda>x. P x \<or> Q x) (mset xs)"
  by (induction xs) auto

lemma count_overdue_filter:
  "\<forall>t \<in> set ts. status t = ''pending'' \<Longrightarrow>
     count_overdue tod ts n = n + int (length (filter (is_overdue tod) ts))"
proof (induction ts arbitrary: n)
  case Nil
  then show ?case by simp
next
  case (Cons t ts)
  then show ?case
    by (cases "due_date t") (auto simp: is_overdue_def strptime_empty split: sum.splits)
qed

lemma list_tasks_due_sorted: "sorted (map key_due (list_tasks st fm ''due''))"
  by (simp add: list_tasks_def Let_def)

lemma key_due_le:
  "key_due a \<le> key_due b \<longleftrightarrow>
     due_or_sentinel a < due_or_sentinel b
     \<or> (due_or_sentinel a = due_or_sentinel b \<and> priority a \<le> priority b)"
  by (auto simp: key_due_def less_eq_prod_def)

section \<open>Identifiers\<close>

text \<open>
  Claim C1, as the code has it. When the save succeeds, \<open>add_task\<close> returns a task
  whose id is the greatest id of the collection it loaded (0 for the empty
  collection) plus 1; the id is strictly greater than every id in that collection,
  and the stored collection is the loaded one with the new task at its end. Ids
  that are no longer in the collection do not count: the store keeps no record of
  them.
\<close>

theorem add_task_id_above_current:
  "\<exists>t. fst (add_task e NoFault st ttl desc due prio summarize) = Inr t
      \<and> task_id t = max_default (map task_id (load st)) 0 + 1
      \<and> (\<forall>u \<in> set (load st). task_id u < task_id t)
      \<and> load (snd (add_task e NoFault st ttl desc due prio summarize)) = load st @ [t]"
  by (simp add: add_task_def Let_def save_then_NoFault load_simps new_task_def next_id_above)
    (simp add: next_id_def)

theorem add_task_id_above_current_witness:
  "\<exists>t. fst (add_task env0 NoFault store2 ''C'' [] None 3 False) = Inr t
      \<and> task_id t = 3 \<and> map task_id (load store2) = [1, 2]"
  using add_task_id_above_current [of env0 store2 "''C''" "[]" None 3 False]
  by (auto simp: load_store2)

text \<open>
  The id 2 is assigned twice: two tasks are added to an empty store, the second
  (which holds the greatest id) is deleted, and the next task added gets the id 2
  again. The test \<open>test_clear_then_add\<close> expects the same of \<open>clear_tasks\<close>.
\<close>

theorem add_reuses_id_counterexample:
  "map_sum id task_id (fst (add_task env0 NoFault store1 ''B'' [] None 3 False)) = Inr 2
   \<and> fst (delete_task NoFault store2 2) = Inr True
   \<and> map_sum id task_id (fst (add_task env0 NoFault store3 ''C'' [] None 3 False)) = Inr 2"
  by (simp add: load_store1 load_store2 load_store3 run_defs)

section \<open>Saving and loading\<close>

text \<open>
  Claim C2, as the code has it. A save that succeeds replaces the file by the whole
  collection, which the next load returns. A save that fails when the file is
  opened leaves the file as it was. A save that fails while writing leaves the
  truncated file behind, and the next load returns the empty collection. The
  only error a save raises is the I/O error.
\<close>

theorem save_outcomes:
  "(case fault of
      NoFault \<Rightarrow>
        fst (save fault st tasks) = Inr () \<and> load (snd (save fault st tasks)) = tasks
    | OpenFails \<Rightarrow>
        fst (save fault st tasks) = Inl IOError
        \<and> content (snd (save fault st tasks)) = content st
        \<and> load (snd (save fault st tasks)) = load st
    | WriteFails s \<Rightarrow>
        fst (save fault st tasks) = Inl IOError
        \<and> content (snd (save fault st tasks)) = Undecodable s
        \<and> load (snd (save fault st tasks)) = [])
   \<and> (fst (save fault st tasks) = Inr () \<or> fst (save fault st tasks) = Inl IOError)"
  by (cases fault) (simp_all add: save_def load_def path_exists_def)

theorem save_outcomes_witness:
  "fst (save NoFault store1 (load store2)) = Inr ()
   \<and> load (snd (save NoFault store1 (load store2))) = load store2
   \<and> fst (save OpenFails store1 (load store2)) = Inl IOError
   \<and> load (snd (save OpenFails store1 (load store2))) = load store1"
  using save_outcomes [of NoFault store1 "load store2"]
        save_outcomes [of OpenFails store1 "load store2"]
  by simp

text \<open>
  A write that fails after the first character: the file holds that character, and
  a load returns neither the collection stored before nor the one being saved.
\<close>

theorem save_not_atomic_counterexample:
  "fst (save (WriteFails ''['') store1 (load store2)) = Inl IOError
   \<and> content (snd (save (WriteFails ''['') store1 (load store2))) = Undecodable ''[''
   \<and> load (snd (save (WriteFails ''['') store1 (load store2))) \<noteq> load store1
   \<and> load (snd (save (WriteFails ''['') store1 (load store2))) \<noteq> load store2"
  by (simp add: save_def load_simps load_store1 load_store2)

text \<open>
  Claim C3. When the file is missing, holds text that does not decode (the empty
  text included), or decodes to a value that is not an array, \<open>load\<close> returns the
  empty collection, and \<open>add_task\<close> on that store returns a task with the id 1.
  The function \<open>load\<close> has no error among its results.
\<close>

theorem load_unusable_file:
  assumes "content st = Missing \<or> content st = Undecodable s
           \<or> (content st = Decoded j \<and> (\<forall>ts. j \<noteq> JArray ts))"
  shows "load st = []
         \<and> (\<exists>t. fst (add_task e NoFault st ttl desc due prio summarize) = Inr t \<and> task_id t = 1)"
proof -
  have "load st = []"
    using assms by (cases j) (auto simp: load_def path_exists_def)
  then show ?thesis
    by (simp add: add_task_def Let_def save_then_NoFault new_task_def next_id_def)
qed

theorem load_unusable_file_witness:
  "load \<lparr>content = Undecodable ''{ invalid json }'', saves = 0\<rparr> = []
   \<and> load \<lparr>content = Decoded (JObject [(''wrong'', ''structure'')]), saves = 0\<rparr> = []
   \<and> map_sum id task_id
        (fst (add_task env0 NoFault \<lparr>content = Decoded (JObject [(''wrong'', ''structure'')]), saves = 0\<rparr>
               ''After Wrong Structure'' [] None 3 False)) = Inr 1"
  using load_unusable_file [of "\<lparr>content = Undecodable ''{ invalid json }'', saves = 0\<rparr>"
          "''{ invalid json }''" JNull env0 "[]" "[]" None 3 False]
        load_unusable_file [of "\<lparr>content = Decoded (JObject [(''wrong'', ''structure'')]), saves = 0\<rparr>"
          "[]" "JObject [(''wrong'', ''structure'')]" env0 "''After Wrong Structure''" "[]" None 3 False]
  by auto

section \<open>Searching\<close>

text \<open>
  Claim C4. For every store and query, \<open>search_tasks\<close> returns the Tier 1 records in
  the order of the collection, followed by the Tier 2 records in the order of the
  collection. The tiers exclude each other, so the result holds no record more often
  than the collection does. For the empty query the result is the whole collection
  in its order.
\<close>

theorem search_tasks_two_tiers:
  "search_tasks st query = filter (tier1 query) (load st) @ filter (tier2 query) (load st)
   \<and> mset (search_tasks st query) \<subseteq># mset (load st)
   \<and> search_tasks st [] = load st"
proof -
  have eq: "\<And>q. search_tasks st q = filter (tier1 q) (load st) @ filter (tier2 q) (load st)"
    by (simp add: search_tasks_def Let_def search_loop_filter)
  have "mset (filter (tier1 query) (load st) @ filter (tier2 query) (load st))
          = filter_mset (\<lambda>t. tier1 query t \<or> tier2 query t) (mset (load st))"
    by (rule disjoint_filters_mset) (simp add: tier2_def)
  then have sub: "mset (search_tasks st query) \<subseteq># mset (load st)"
    by (simp only: eq multiset_filter_subset)
  have "\<And>t. tier1 [] t" by (simp add: tier1_def lower_def)
  then have "search_tasks st [] = load st"
    by (simp add: eq tier2_def)
  with eq sub show ?thesis by simp
qed

theorem search_tasks_two_tiers_witness:
  "map task_id (filter (tier1 ''b'') (load store_search) @ filter (tier2 ''b'') (load store_search))
     = [1, 3, 2, 4]
   \<and> map title (filter (tier1 ''B'') (load store_search) @ filter (tier2 ''B'') (load store_search))
     = [''Brush teeth'', ''Buy groceries'', ''Do laundry'', ''Remember birthday'']"
proof -
  have "search_tasks store_search ''b''
          = filter (tier1 ''b'') (load store_search) @ filter (tier2 ''b'') (load store_search)"
    using search_tasks_two_tiers [of store_search "''b''"] by (rule conjunct1)
  moreover have "search_tasks store_search ''B''
          = filter (tier1 ''B'') (load store_search) @ filter (tier2 ''B'') (load store_search)"
    using search_tasks_two_tiers [of store_search "''B''"] by (rule conjunct1)
  ultimately show ?thesis
    using search_example search_example_upper by simp
qed

section \<open>Listing by due date\<close>

text \<open>
  Claim C5, as the code has it. Under the sort mode \<open>due\<close> the result is ordered by
  the pair of the due date text, with \<open>9999-12-31\<close> in place of an absent or empty
  one, and the priority; texts are compared character by character. So a record
  without a due date comes after every record whose due date text is below
  \<open>9999-12-31\<close>, whatever the priorities; and among all records the first key is
  the due date text, the second the priority, both ascending. With no filter the
  result is a rearrangement of the collection.
\<close>

theorem list_tasks_due_order:
  assumes r: "r = list_tasks st filter_mode ''due''"
  shows "(\<forall>i j. i < j \<and> j < length r \<longrightarrow>
            due_or_sentinel (r ! i) < due_or_sentinel (r ! j)
            \<or> (due_or_sentinel (r ! i) = due_or_sentinel (r ! j) \<and> priority (r ! i) \<le> priority (r ! j)))
       \<and> (\<forall>i j d. i < length r \<and> j < length r \<and> \<not> truthy (due_date (r ! i))
             \<and> due_date (r ! j) = Some d \<and> d \<noteq> [] \<and> d < ''9999-12-31'' \<longrightarrow> j < i)
       \<and> mset (list_tasks st ''all'' ''due'') = mset (load st)"
proof -
  have sorted: "sorted (map key_due r)"
    unfolding r by (rule list_tasks_due_sorted)
  have mono: "key_due (r ! i) \<le> key_due (r ! j)" if "i \<le> j" "j < length r" for i j
    using sorted that by (simp add: sorted_iff_nth_mono)
  have first: "\<forall>i j. i < j \<and> j < length r \<longrightarrow>
            due_or_sentinel (r ! i) < due_or_sentinel (r ! j)
            \<or> (due_or_sentinel (r ! i) = due_or_sentinel (r ! j) \<and> priority (r ! i) \<le> priority (r ! j))"
    using mono by (simp add: key_due_le)
  have second: "j < i"
    if "i < length r" "j < length r" "\<not> truthy (due_date (r ! i))"
       "due_date (r ! j) = Some d" "d \<noteq> []" "d < ''9999-12-31''" for i j d
  proof (rule ccontr)
    assume "\<not> j < i"
    then have "i \<le> j" by simp
    then have "key_due (r ! i) \<le> key_due (r ! j)"
      using mono that(2) by simp
    moreover have "due_or_sentinel (r ! i) = ''9999-12-31''"
      using that(3) by (cases "due_date (r ! i)") (simp_all add: due_or_sentinel_def)
    moreover have "due_or_sentinel (r ! j) < ''9999-12-31''"
      using that(4,5,6) by (simp add: due_or_sentinel_def)
    ultimately show False
      by (auto simp: key_due_le)
  qed
  have third: "mset (list_tasks st ''all'' ''due'') = mset (load st)"
    by (simp add: list_tasks_def Let_def)
  from first second third show ?thesis by blast
qed

theorem list_tasks_due_order_witness:
  "map task_id (list_tasks store_mixed ''all'' ''due'') = [2, 1]
   \<and> map due_date (list_tasks store_mixed ''all'' ''due'') = [Some ''2025-12-01'', None]
   \<and> ''2025-12-01'' < ''9999-12-31''"
  using list_tasks_due_order [where r = "list_tasks store_mixed ''all'' ''due''"
          and st = store_mixed and filter_mode = "''all''"]
  by (simp add: list_tasks_def load_store_mixed key_due_def due_or_sentinel_def)

text \<open>
  A record due on 9999-12-31 has the key text of a record without a due date, and
  the priority decides: the record without a due date, of priority 1, is listed
  before the dated record of priority 5.
\<close>

theorem list_tasks_due_counterexample:
  "map task_id (list_tasks store_far ''all'' ''due'') = [1, 2]
   \<and> map due_date (list_tasks store_far ''all'' ''due'') = [None, Some ''9999-12-31'']
   \<and> map priority (list_tasks store_far ''all'' ''due'') = [1, 5]"
  by (simp add: list_tasks_def load_store_far key_due_def due_or_sentinel_def)

section \<open>Overview\<close>

text \<open>
  Claim C6. For every store, \<open>get_overview\<close> returns the size of the collection as
  total, the number of pending records as incomplete, the number of pending records
  of priority at most 2 as high_priority, and as overdue the number of pending
  records whose due date is present, parses, and lies strictly before the current
  date; a record whose due date is absent or does not parse is not overdue.
\<close>

theorem get_overview_counts:
  "get_overview e st =
     \<lparr>total = int (length (load st)),
      incomplete = int (length (filter (\<lambda>t. status t = ''pending'') (load st))),
      high_priority = int (length (filter (\<lambda>t. status t = ''pending'' \<and> priority t \<le> 2) (load st))),
      overdue = int (length (filter (is_overdue (today e)) (load st)))\<rparr>"
proof -
  let ?p = "filter (\<lambda>t. status t = ''pending'') (load st)"
  have "count_overdue (today e) ?p 0 = int (length (filter (is_overdue (today e)) ?p))"
    using count_overdue_filter [of ?p "today e" 0] by simp
  moreover have "filter (is_overdue (today e)) ?p = filter (is_overdue (today e)) (load st)"
    by (auto simp: is_overdue_def intro: filter_cong)
  moreover have "filter (\<lambda>t. priority t \<le> 2) ?p
                   = filter (\<lambda>t. status t = ''pending'' \<and> priority t \<le> 2) (load st)"
    by (auto intro: filter_cong)
  ultimately show ?thesis
    by (simp add: get_overview_def Let_def)
qed

theorem get_overview_counts_witness:
  "int (length (load store_overview)) = 3
   \<and> int (length (filter (\<lambda>t. status t = ''pending'') (load store_overview))) = 2
   \<and> int (length (filter (\<lambda>t. status t = ''pending'' \<and> priority t \<le> 2) (load store_overview))) = 1
   \<and> int (length (filter (is_overdue (today env0)) (load store_overview))) = 1"
  using get_overview_counts [of env0 store_overview] overview_example
  by simp

section \<open>Editing\<close>

text \<open>
  Claim C7, as the code has it. \<open>edit_task\<close> returns \<open>False\<close> exactly when no record has
  the id. When a record has it and the save succeeds, the first such record gets
  the title and the description that are supplied, and its due date becomes: the
  supplied text, when this is not empty and parses; absent, when the supplied text
  is empty; the former due date, when the supplied text is not empty and does not
  parse, or when none is supplied. Its other fields and all other records stay as
  they were.
\<close>

theorem edit_task_fields:
  "(fst (edit_task fault st i ttl desc due) = Inr False) = (i \<notin> task_id ` set (load st))
   \<and> (i \<in> task_id ` set (load st) \<and> k = first_index i (load st) \<longrightarrow>
        (\<exists>st'. edit_task NoFault st i ttl desc due = (Inr True, st')
           \<and> length (load st') = length (load st)
           \<and> (\<forall>j. j < length (load st) \<and> j \<noteq> k \<longrightarrow> load st' ! j = load st ! j)
           \<and> title (load st' ! k) = (case ttl of None \<Rightarrow> title (load st ! k) | Some x \<Rightarrow> x)
           \<and> description (load st' ! k)
               = (case desc of None \<Rightarrow> description (load st ! k) | Some x \<Rightarrow> x)
           \<and> due_date (load st' ! k)
               = (case due of
                    None \<Rightarrow> due_date (load st ! k)
                  | Some d \<Rightarrow>
                      if d = [] then None
                      else (case strptime d of
                              Inl err \<Rightarrow> due_date (load st ! k)
                            | Inr v \<Rightarrow> Some d))
           \<and> task_id (load st' ! k) = i
           \<and> created_at (load st' ! k) = created_at (load st ! k)
           \<and> priority (load st' ! k) = priority (load st ! k)
           \<and> status (load st' ! k) = status (load st ! k)
           \<and> summary (load st' ! k) = summary (load st ! k)))"
proof -
  have iff: "(fst (edit_task fault st i ttl desc due) = Inr False) = (i \<notin> task_id ` set (load st))"
    unfolding edit_task_def by (rule first_match_False)
  have fields:
    "title (edit_fields ttl desc due t) = (case ttl of None \<Rightarrow> title t | Some x \<Rightarrow> x)"
    "description (edit_fields ttl desc due t) = (case desc of None \<Rightarrow> description t | Some x \<Rightarrow> x)"
    "due_date (edit_fields ttl desc due t)
       = (case due of None \<Rightarrow> due_date t
          | Some d \<Rightarrow> if d = [] then None
                      else (case strptime d of Inl err \<Rightarrow> due_date t | Inr v \<Rightarrow> Some d))"
    "task_id (edit_fields ttl desc due t) = task_id t"
    "created_at (edit_fields ttl desc due t) = created_at t"
    "priority (edit_fields ttl desc due t) = priority t"
    "status (edit_fields ttl desc due t) = status t"
    "summary (edit_fields ttl desc due t) = summary t" for t
    by (simp_all add: edit_fields_def Let_def split: option.splits sum.splits)
  have step: "\<exists>st'. edit_task NoFault st i ttl desc due = (Inr True, st')
           \<and> load st' = (load st)[k := edit_fields ttl desc due (load st ! k)]"
    if "i \<in> task_id ` set (load st)" "k = first_index i (load st)"
    using that by (simp add: edit_task_def update_first_Some save_then_NoFault load_simps)
  show ?thesis
  proof (intro conjI impI)
    show "(fst (edit_task fault st i ttl desc due) = Inr False) = (i \<notin> task_id ` set (load st))"
      by (rule iff)
  next
    assume a: "i \<in> task_id ` set (load st) \<and> k = first_index i (load st)"
    then obtain st' where e: "edit_task NoFault st i ttl desc due = (Inr True, st')"
      and l: "load st' = (load st)[k := edit_fields ttl desc due (load st ! k)]"
      using step by blast
    have k: "k < length (load st)" "task_id (load st ! k) = i"
      using a by (simp_all add: first_index_less first_index_id)
    have "edit_task NoFault st i ttl desc due = (Inr True, st')
           \<and> length (load st') = length (load st)
           \<and> (\<forall>j. j < length (load st) \<and> j \<noteq> k \<longrightarrow> load st' ! j = load st ! j)
           \<and> title (load st' ! k) = (case ttl of None \<Rightarrow> title (load st ! k) | Some x \<Rightarrow> x)
           \<and> description (load st' ! k)
               = (case desc of None \<Rightarrow> description (load st ! k) | Some x \<Rightarrow> x)
           \<and> due_date (load st' ! k)
               = (case due of
                    None \<Rightarrow> due_date (load st ! k)
                  | Some d \<Rightarrow>
                      if d = [] then None
                      else (case strptime d of
                              Inl err \<Rightarrow> due_date (load st ! k)
                            | Inr v \<Rightarrow> Some d))
           \<and> task_id (load st' ! k) = i
           \<and> created_at (load st' ! k) = created_at (load st ! k)
           \<and> priority (load st' ! k) = priority (load st ! k)
           \<and> status (load st' ! k) = status (load st ! k)
           \<and> summary (load st' ! k) = summary (load st ! k)"
      using e l k by (simp add: fields)
    then show "\<exists>st'. edit_task NoFault st i ttl desc due = (Inr True, st')
           \<and> length (load st') = length (load st)
           \<and> (\<forall>j. j < length (load st) \<and> j \<noteq> k \<longrightarrow> load st' ! j = load st ! j)
           \<and> title (load st' ! k) = (case ttl of None \<Rightarrow> title (load st ! k) | Some x \<Rightarrow> x)
           \<and> description (load st' ! k)
               = (case desc of None \<Rightarrow> description (load st ! k) | Some x \<Rightarrow> x)
           \<and> due_date (load st' ! k)
               = (case due of
                    None \<Rightarrow> due_date (load st ! k)
                  | Some d \<Rightarrow>
                      if d = [] then None
                      else (case strptime d of
                              Inl err \<Rightarrow> due_date (load st ! k)
                            | Inr v \<Rightarrow> Some d))
           \<and> task_id (load st' ! k) = i
           \<and> created_at (load st' ! k) = created_at (load st ! k)
           \<and> priority (load st' ! k) = priority (load st ! k)
           \<and> status (load st' ! k) = status (load st ! k)
           \<and> summary (load st' ! k) = summary (load st ! k)"
      by (rule exI)
  qed
qed

theorem edit_task_fields_witness:
  "fst (edit_task OpenFails store_dated 1 None None (Some ''invalid'')) \<noteq> Inr False
   \<and> fst (edit_task NoFault store_dated 1 (Some ''New'') None (Some ''invalid'')) = Inr True
   \<and> map title (load (snd (edit_task NoFault store_dated 1 (Some ''New'') None (Some ''invalid'')))) = [''New'']
   \<and> map due_date (load (snd (edit_task NoFault store_dated 1 (Some ''New'') None (Some ''invalid''))))
        = [Some ''2025-12-01'']"
  using edit_task_fields [where fault = OpenFails and st = store_dated and i = 1 and ttl = None
          and desc = None and due = "Some ''invalid''" and k = 0]
  by (simp add: load_store_dated first_index_def strptime_def is_digit_def
        edit_task_def edit_fields_def save_then_NoFault load_simps)

text \<open>
  The empty text is not a date, and supplying it does not keep the former due date:
  it removes the due date.
\<close>

theorem edit_task_empty_due_counterexample:
  "strptime [] = Inl ValueError
   \<and> map due_date (load store_dated) = [Some ''2025-12-01'']
   \<and> fst (edit_task NoFault store_dated 1 None None (Some [])) = Inr True
   \<and> map due_date (load (snd (edit_task NoFault store_dated 1 None None (Some [])))) = [None]"
  by (simp add: strptime_empty load_store_dated edit_task_def edit_fields_def save_then_NoFault load_simps)

section \<open>Setting the priority and completing\<close>

text \<open>
  Claim C8. When the priority is below 1 or above 5, or no record has the id,
  \<open>set_priority\<close> returns \<open>False\<close> and the store is as before, with no save made,
  whatever the file system would have done. Otherwise, when the save succeeds, it
  makes one save, returns \<open>True\<close>, and the stored collection is the former one with
  the priority of the first record of that id set to the given value.
\<close>

theorem set_priority_range_and_id:
  "(p < 1 \<or> 5 < p \<or> i \<notin> task_id ` set (load st) \<longrightarrow>
      set_priority fault st i p = (Inr False, st))
   \<and> (1 \<le> p \<and> p \<le> 5 \<and> i \<in> task_id ` set (load st) \<longrightarrow>
        (\<exists>st'. set_priority NoFault st i p = (Inr True, st')
           \<and> saves st' = Suc (saves st)
           \<and> load st' = (load st)[first_index i (load st)
                                    := (load st ! first_index i (load st))\<lparr>priority := p\<rparr>]))"
proof -
  have "set_priority fault st i p = (Inr False, st)" if "i \<notin> task_id ` set (load st)"
  proof -
    have "update_first i (\<lambda>t. t\<lparr>priority := p\<rparr>) (load st) = None"
      using that by (simp add: update_first_None)
    then show ?thesis by (simp add: set_priority_def)
  qed
  moreover have "set_priority fault st i p = (Inr False, st)" if "p < 1 \<or> 5 < p"
    using that by (simp add: set_priority_def)
  moreover have "\<exists>st'. set_priority NoFault st i p = (Inr True, st')
           \<and> saves st' = Suc (saves st)
           \<and> load st' = (load st)[first_index i (load st)
                                    := (load st ! first_index i (load st))\<lparr>priority := p\<rparr>]"
    if "1 \<le> p" "p \<le> 5" "i \<in> task_id ` set (load st)"
    using that by (simp add: set_priority_def update_first_Some save_then_NoFault load_simps)
  ultimately show ?thesis by blast
qed

theorem set_priority_range_and_id_witness:
  "set_priority NoFault store2 2 0 = (Inr False, store2)
   \<and> set_priority NoFault store2 2 6 = (Inr False, store2)
   \<and> set_priority NoFault store2 999 3 = (Inr False, store2)
   \<and> fst (set_priority NoFault store2 2 1) = Inr True
   \<and> map priority (load (snd (set_priority NoFault store2 2 1))) = [3, 1]"
  using set_priority_range_and_id [where p = 0 and i = 2 and st = store2 and fault = NoFault]
        set_priority_range_and_id [where p = 6 and i = 2 and st = store2 and fault = NoFault]
        set_priority_range_and_id [where p = 3 and i = 999 and st = store2 and fault = NoFault]
  by (simp add: load_store2 first_index_def set_priority_def save_then_NoFault load_simps)

text \<open>
  Claim C9. When a record has the id, \<open>complete_task\<close> returns \<open>True\<close> and the record
  has the status complete; a second call returns \<open>True\<close> again and the stored
  collection is the same as after the first. When no record has the id, it returns
  \<open>False\<close>. (The saves are taken to succeed.)
\<close>

theorem complete_task_idempotent:
  "(i \<in> task_id ` set (load st) \<longrightarrow>
      (\<exists>s1 s2. complete_task NoFault st i = (Inr True, s1)
         \<and> status (load s1 ! first_index i (load s1)) = ''complete''
         \<and> task_id (load s1 ! first_index i (load s1)) = i
         \<and> complete_task NoFault s1 i = (Inr True, s2)
         \<and> status (load s2 ! first_index i (load s2)) = ''complete''
         \<and> load s2 = load s1))
   \<and> (i \<notin> task_id ` set (load st) \<longrightarrow> complete_task fault st i = (Inr False, st))"
proof -
  let ?f = "\<lambda>t. t\<lparr>status := ''complete''\<rparr>"
  let ?k = "first_index i (load st)"
  let ?ts = "(load st)[?k := ?f (load st ! ?k)]"
  let ?s1 = "\<lparr>content = Decoded (JArray ?ts), saves = Suc (saves st)\<rparr>"
  let ?s2 = "\<lparr>content = Decoded (JArray ?ts), saves = Suc (Suc (saves st))\<rparr>"
  have absent: "complete_task fault st i = (Inr False, st)" if "i \<notin> task_id ` set (load st)"
  proof -
    have "update_first i ?f (load st) = None"
      using that by (simp add: update_first_None)
    then show ?thesis by (simp add: complete_task_def)
  qed
  have present: "complete_task NoFault st i = (Inr True, ?s1)
         \<and> status (load ?s1 ! first_index i (load ?s1)) = ''complete''
         \<and> task_id (load ?s1 ! first_index i (load ?s1)) = i
         \<and> complete_task NoFault ?s1 i = (Inr True, ?s2)
         \<and> status (load ?s2 ! first_index i (load ?s2)) = ''complete''
         \<and> load ?s2 = load ?s1"
    if "i \<in> task_id ` set (load st)"
  proof -
    have k: "?k < length (load st)" and id: "task_id (load st ! ?k) = i"
      using that by (simp_all add: first_index_less first_index_id)
    have idx: "first_index i ?ts = ?k"
      using that id by (simp add: first_index_update)
    have again: "update_first i ?f ?ts = Some ?ts"
      using that by (rule update_first_again) simp_all
    show ?thesis
      using that k id idx again
      by (simp add: complete_task_def update_first_Some save_then_NoFault load_simps)
  qed
  from absent present show ?thesis by blast
qed

theorem complete_task_idempotent_witness:
  "fst (complete_task NoFault store2 2) = Inr True
   \<and> map status (load (snd (complete_task NoFault store2 2))) = [''pending'', ''complete'']
   \<and> fst (complete_task NoFault (snd (complete_task NoFault store2 2)) 2) = Inr True
   \<and> map status (load (snd (complete_task NoFault (snd (complete_task NoFault store2 2)) 2)))
        = [''pending'', ''complete'']
   \<and> complete_task NoFault store2 999 = (Inr False, store2)"
  using complete_task_idempotent [where i = 999 and st = store2 and fault = NoFault]
  by (simp add: load_store2 load_simps complete_task_def save_then_NoFault)

section \<open>Failed mutations\<close>

text \<open>
  Claim C10. Whenever \<open>complete_task\<close>, \<open>delete_task\<close>, \<open>edit_task\<close> or
  \<open>set_priority\<close> returns \<open>False\<close>, the store is the one before the call: the file
  is as it was and no save has been made.
\<close>

theorem failed_mutation_is_noop:
  "(fst (complete_task fault st i) = Inr False \<longrightarrow> snd (complete_task fault st i) = st)
   \<and> (fst (delete_task fault st i) = Inr False \<longrightarrow> snd (delete_task fault st i) = st)
   \<and> (fst (edit_task fault st i ttl desc due) = Inr False \<longrightarrow>
         snd (edit_task fault st i ttl desc due) = st)
   \<and> (fst (set_priority fault st i p) = Inr False \<longrightarrow> snd (set_priority fault st i p) = st)"
proof -
  have "snd (complete_task fault st i) = st" if "fst (complete_task fault st i) = Inr False"
    using that unfolding complete_task_def by (rule first_match_unchanged)
  moreover have "snd (delete_task fault st i) = st" if "fst (delete_task fault st i) = Inr False"
    using that by (simp add: delete_task_def Let_def save_then_not_False split: if_splits)
  moreover have "snd (edit_task fault st i ttl desc due) = st"
    if "fst (edit_task fault st i ttl desc due) = Inr False"
    using that unfolding edit_task_def by (rule first_match_unchanged)
  moreover have "snd (set_priority fault st i p) = st" if "fst (set_priority fault st i p) = Inr False"
  proof (cases "p < 1 \<or> p > 5")
    case True
    then show ?thesis by (simp add: set_priority_def)
  next
    case False
    then show ?thesis
      using that first_match_unchanged [where i = i and f = "\<lambda>t. t\<lparr>priority := p\<rparr>"
          and ts = "load st" and fault = fault and st = st]
      by (simp add: set_priority_def)
  qed
  ultimately show ?thesis by blast
qed

theorem failed_mutation_is_noop_witness:
  "fst (complete_task OpenFails store2 999) = Inr False
   \<and> snd (complete_task OpenFails store2 999) = store2
   \<and> fst (delete_task OpenFails store2 999) = Inr False
   \<and> snd (delete_task OpenFails store2 999) = store2
   \<and> fst (edit_task OpenFails store2 999 (Some ''Nope'') None None) = Inr False
   \<and> snd (edit_task OpenFails store2 999 (Some ''Nope'') None None) = store2
   \<and> fst (set_priority OpenFails store2 2 6) = Inr False
   \<and> snd (set_priority OpenFails store2 2 6) = store2"
  using failed_mutation_is_noop [where fault = OpenFails and st = store2 and i = 999
          and ttl = "Some ''Nope''" and desc = None and due = None and p = 3]
        failed_mutation_is_noop [where fault = OpenFails and st = store2 and i = 2
          and ttl = None and desc = None and due = None and p = 6]
  by (simp add: load_store2 complete_task_def delete_task_def edit_task_def set_priority_def)

end
